theory Spec2Isabelle
  imports Complex_Main "HOL-Library.Sublist" "HOL-Library.Char_ord" "HOL-Library.List_Lexorder"
begin

section \<open>The sales dashboard script \<^verbatim>\<open>dash2.py\<close>\<close>

text \<open>
  The script has two parts: \<^verbatim>\<open>generate_sales_data\<close>, which builds a synthetic
  transaction log from pseudo-random draws, and the top-level pipeline which filters the
  log by the sidebar selection, derives the comparison period, the KPIs and the grouped
  tables.

  Modelling decisions, valid for the whole development:
  \<^item> A row of the data frame is a record with the seven keys of the dictionary appended
    at lines 44-52; the data frame is the list of its rows, in order.
  \<^item> Every timestamp of the program is a midnight (the generator walks a daily range,
    the date widget returns calendar days), so a timestamp is the proleptic Gregorian
    ordinal of its day, an \<open>int\<close>, as \<^verbatim>\<open>date.toordinal()\<close> computes it. A
    \<^verbatim>\<open>timedelta(days=n)\<close> is the integer \<open>n\<close>.
  \<^item> A float is the real number it denotes. The sums and quotients of the pipeline are
    exact. The floating-point product of line 42 is not: it is a parameter of the
    generator (\<open>float_mul\<close>), so that nothing is assumed about how the product is
    rounded. \<^verbatim>\<open>round(x, 2)\<close> is the nearest multiple of 0.01 of its argument, a
    tie going to the even multiple, and a stored two-decimal value is identified with
    that decimal.
  \<^item> \<^verbatim>\<open>numpy.random\<close> is not part of the repository. It is a parameter: a record
    of state transformers over an abstract generator state, with its documented
    contract stated separately as \<open>np_contract\<close>.
\<close>

subsection \<open>Data model\<close>

type_synonym timestamp = int

record sale =
  Date :: timestamp
  Product :: string
  Category :: string
  Region :: string
  Quantity :: int
  Unit_Price :: real
  Revenue :: real

type_synonym dataframe = "sale list"

text \<open>The values of the sidebar widgets (lines 62-93) after lines 72-75.\<close>

record selection =
  start_date :: timestamp
  end_date :: timestamp
  selected_categories :: "string list"
  selected_regions :: "string list"
  selected_products :: "string list"

subsection \<open>Calendar days\<close>

text \<open>
  \<^verbatim>\<open>datetime(y, m, d)\<close> at midnight, as a day ordinal (day 1 is 0001-01-01), following
  the standard library's \<^verbatim>\<open>_ymd2ord\<close>.
\<close>

definition is_leap :: "int \<Rightarrow> bool" where
  "is_leap y = (if y mod 4 = 0 then (if y mod 100 = 0 then y mod 400 = 0 else True) else False)"

definition days_before_year :: "int \<Rightarrow> int" where
  "days_before_year year = (let y = year - 1 in y * 365 + y div 4 - y div 100 + y div 400)"

definition days_in_month :: "int \<Rightarrow> int \<Rightarrow> int" where
  "days_in_month year month =
     (if month = 2 \<and> is_leap year then 29
      else [31, 28, 31, 30, 31, 30, 31, 31, 30, 31, 30, 31] ! nat (month - 1))"

definition days_before_month :: "int \<Rightarrow> int \<Rightarrow> int" where
  "days_before_month year month = sum_list (map (days_in_month year) [1..month - 1])"

definition datetime :: "int \<Rightarrow> int \<Rightarrow> int \<Rightarrow> timestamp" where
  "datetime year month day = days_before_year year + days_before_month year month + day"

text \<open>\<^verbatim>\<open>pd.date_range(start, end, freq='D')\<close>: every day from start to end, both included.\<close>

definition pd_date_range :: "timestamp \<Rightarrow> timestamp \<Rightarrow> timestamp list" where
  "pd_date_range start stop = [start..stop]"

subsection \<open>Rounding to two decimals\<close>

text \<open>
  \<^verbatim>\<open>round(x, 2)\<close> on a float: the nearest multiple of 0.01, a tie going to the even
  multiple.
\<close>

definition py_round2 :: "real \<Rightarrow> real" where
  "py_round2 x =
     (let y = x * 100;
          f = \<lfloor>y\<rfloor>;
          d = y - of_int f
      in of_int (if d < 1 / 2 then f else if 1 / 2 < d then f + 1
                 else if even f then f else f + 1) / 100)"

subsection \<open>What the generator takes from outside the repository\<close>

text \<open>
  The four entry points of \<^verbatim>\<open>numpy.random\<close> the generator calls. Each draw reads
  the global generator state \<open>'g\<close> and returns the value with the next state;
  \<^verbatim>\<open>seed\<close> replaces the state by one that depends on its argument only.
  \<open>float_mul\<close> is the interpreter's floating-point product \<^verbatim>\<open>price * quantity\<close>.
\<close>

record 'g np_random =
  seed :: "int \<Rightarrow> 'g"
  randint :: "int \<Rightarrow> int \<Rightarrow> 'g \<Rightarrow> int \<times> 'g"
  choice :: "string list \<Rightarrow> 'g \<Rightarrow> string \<times> 'g"
  uniform :: "real \<Rightarrow> real \<Rightarrow> 'g \<Rightarrow> real \<times> 'g"
  float_mul :: "real \<Rightarrow> real \<Rightarrow> real"

text \<open>
  The documented contract: \<^verbatim>\<open>randint(low, high)\<close> is an integer in \<open>[low, high)\<close>,
  \<^verbatim>\<open>choice(a)\<close> an element of \<open>a\<close>, \<^verbatim>\<open>uniform(low, high)\<close> a number in
  \<open>[low, high)\<close>.
\<close>

definition np_contract :: "'g np_random \<Rightarrow> bool" where
  "np_contract np \<longleftrightarrow>
     (\<forall>low high g. low < high \<longrightarrow>
        low \<le> fst (randint np low high g) \<and> fst (randint np low high g) < high) \<and>
     (\<forall>a g. a \<noteq> [] \<longrightarrow> fst (choice np a g) \<in> set a) \<and>
     (\<forall>low high g. low < high \<longrightarrow>
        low \<le> fst (uniform np low high g) \<and> fst (uniform np low high g) < high)"

subsection \<open>The data generator (lines 10-55)\<close>

definition products :: "string list" where
  "products = [''Laptop'', ''Smartphone'', ''Tablet'', ''Headphones'', ''Monitor'',
               ''Keyboard'', ''Mouse'', ''Webcam'']"

definition regions :: "string list" where
  "regions = [''North America'', ''Europe'', ''Asia'', ''South America'', ''Africa'']"

definition categories :: "string list" where
  "categories = [''Electronics'', ''Accessories'', ''Computers'', ''Audio'']"

text \<open>Lines 28-39: the category of the product and the price drawn for it.\<close>

definition category_and_price :: "'g np_random \<Rightarrow> string \<Rightarrow> 'g \<Rightarrow> string \<times> real \<times> 'g" where
  "category_and_price np product g =
     (if product \<in> set [''Laptop'', ''Monitor''] then
        (let (price, g') = uniform np 500 2000 g in (''Computers'', price, g'))
      else if product \<in> set [''Smartphone'', ''Tablet''] then
        (let (price, g') = uniform np 300 1200 g in (''Electronics'', price, g'))
      else if product \<in> set [''Headphones'', ''Webcam''] then
        (let (price, g') = uniform np 50 400 g in (''Audio'', price, g'))
      else
        (let (price, g') = uniform np 20 150 g in (''Accessories'', price, g')))"

text \<open>
  Lines 26-52, one pass of the inner loop: the row appended to \<^verbatim>\<open>data\<close> and the
  generator state after the four draws, in the order the script makes them.
\<close>

definition make_sale :: "'g np_random \<Rightarrow> timestamp \<Rightarrow> 'g \<Rightarrow> sale \<times> 'g" where
  "make_sale np date g =
     (let (product, g1) = choice np products g;
          (category, price, g2) = category_and_price np product g1;
          (quantity, g3) = randint np 1 10 g2;
          revenue = float_mul np price (of_int quantity);
          (region, g4) = choice np regions g3
      in (\<lparr>Date = date, Product = product, Category = category, Region = region,
           Quantity = quantity, Unit_Price = py_round2 price,
           Revenue = py_round2 revenue\<rparr>, g4))"

text \<open>Line 25: \<^verbatim>\<open>for _ in range(num_transactions)\<close>, on the list \<^verbatim>\<open>data\<close> and the state.\<close>

fun transactions_loop ::
  "'g np_random \<Rightarrow> timestamp \<Rightarrow> nat \<Rightarrow> dataframe \<times> 'g \<Rightarrow> dataframe \<times> 'g" where
  "transactions_loop np date 0 (data, g) = (data, g)"
| "transactions_loop np date (Suc n) (data, g) =
     (let (row, g') = make_sale np date g
      in transactions_loop np date n (data @ [row], g'))"

text \<open>Line 23: \<^verbatim>\<open>for date in date_range\<close>. A non-positive count gives an empty range.\<close>

fun dates_loop ::
  "'g np_random \<Rightarrow> timestamp list \<Rightarrow> dataframe \<times> 'g \<Rightarrow> dataframe \<times> 'g" where
  "dates_loop np [] (data, g) = (data, g)"
| "dates_loop np (date # rest) (data, g) =
     (let (num_transactions, g') = randint np 5 15 g
      in dates_loop np rest (transactions_loop np date (nat num_transactions) (data, g')))"

text \<open>
  The function, from the global generator state it is called in to the data frame and
  the state it leaves behind.
\<close>

definition generate_sales_data :: "'g np_random \<Rightarrow> 'g \<Rightarrow> dataframe \<times> 'g" where
  "generate_sales_data np g0 =
     (let g = seed np 42;
          start = datetime 2024 1 1;
          stop = datetime 2024 11 24;
          date_range = pd_date_range start stop
      in dates_loop np date_range ([], g))"

text \<open>The lookups of lines 28-39, read off the branches.\<close>

definition category_of :: "string \<Rightarrow> string" where
  "category_of product =
     (if product \<in> {''Laptop'', ''Monitor''} then ''Computers''
      else if product \<in> {''Smartphone'', ''Tablet''} then ''Electronics''
      else if product \<in> {''Headphones'', ''Webcam''} then ''Audio''
      else ''Accessories'')"

definition price_range_of :: "string \<Rightarrow> real \<times> real" where
  "price_range_of category =
     (if category = ''Computers'' then (500, 2000)
      else if category = ''Electronics'' then (300, 1200)
      else if category = ''Audio'' then (50, 400)
      else (20, 150))"

text \<open>
  Two library instances to run the generator on. In the first the state counts the
  draws and every draw returns a fixed point of its range. In the second the state is
  a counter started at the seed and every draw is computed from it; a uniform draw
  advances it by four, the others by one. In both the product is the exact one.
\<close>

definition stub_np :: "nat np_random" where
  "stub_np = \<lparr>
     seed = (\<lambda>n. 0),
     randint = (\<lambda>low high g. (high - 1, Suc g)),
     choice = (\<lambda>a g. (case a of [] \<Rightarrow> [] | x # _ \<Rightarrow> x, Suc g)),
     uniform = (\<lambda>low high g. (low + (high - low) / 375000, Suc g)),
     float_mul = (\<lambda>x y. x * y)\<rparr>"

definition cnt_np :: "nat np_random" where
  "cnt_np = \<lparr>
     seed = (\<lambda>n. nat n),
     randint = (\<lambda>low high g. (low + int g mod (high - low), Suc g)),
     choice = (\<lambda>a g. (if a = [] then [] else a ! (g mod length a), Suc g)),
     uniform = (\<lambda>low high g. (low + (high - low) * (real (g mod 1000) / 1000), g + 4)),
     float_mul = (\<lambda>x y. x * y)\<rparr>"

subsection \<open>The filter pipeline (lines 95-142)\<close>

text \<open>Lines 95-101. \<^verbatim>\<open>isin\<close> is membership in the selected list.\<close>

definition filtered_df :: "dataframe \<Rightarrow> selection \<Rightarrow> dataframe" where
  "filtered_df df sel =
     filter (\<lambda>r. Date r \<ge> start_date sel \<and>
                 Date r \<le> end_date sel \<and>
                 Category r \<in> set (selected_categories sel) \<and>
                 Region r \<in> set (selected_regions sel) \<and>
                 Product r \<in> set (selected_products sel)) df"

text \<open>Lines 103-105.\<close>

definition period_days :: "selection \<Rightarrow> int" where
  "period_days sel = (end_date sel - start_date sel) + 1"

definition previous_start :: "selection \<Rightarrow> timestamp" where
  "previous_start sel = start_date sel - period_days sel"

definition previous_end :: "selection \<Rightarrow> timestamp" where
  "previous_end sel = start_date sel - 1"

text \<open>Lines 107-113.\<close>

definition previous_df :: "dataframe \<Rightarrow> selection \<Rightarrow> dataframe" where
  "previous_df df sel =
     filter (\<lambda>r. Date r \<ge> previous_start sel \<and>
                 Date r \<le> previous_end sel \<and>
                 Category r \<in> set (selected_categories sel) \<and>
                 Region r \<in> set (selected_regions sel) \<and>
                 Product r \<in> set (selected_products sel)) df"

text \<open>Lines 115-121. The sum of an empty column is 0.\<close>

definition current_revenue :: "dataframe \<Rightarrow> selection \<Rightarrow> real" where
  "current_revenue df sel = sum_list (map Revenue (filtered_df df sel))"

definition previous_revenue :: "dataframe \<Rightarrow> selection \<Rightarrow> real" where
  "previous_revenue df sel = sum_list (map Revenue (previous_df df sel))"

definition growth_rate_of :: "real \<Rightarrow> real \<Rightarrow> real" where
  "growth_rate_of current previous =
     (if previous > 0 then ((current - previous) / previous) * 100 else 0)"

definition growth_rate :: "dataframe \<Rightarrow> selection \<Rightarrow> real" where
  "growth_rate df sel = growth_rate_of (current_revenue df sel) (previous_revenue df sel)"

text \<open>Lines 125-139.\<close>

definition total_revenue :: "dataframe \<Rightarrow> selection \<Rightarrow> real" where
  "total_revenue df sel = sum_list (map Revenue (filtered_df df sel))"

definition total_transactions :: "dataframe \<Rightarrow> selection \<Rightarrow> nat" where
  "total_transactions df sel = length (filtered_df df sel)"

definition avg_transaction :: "dataframe \<Rightarrow> selection \<Rightarrow> real" where
  "avg_transaction df sel =
     (if length (filtered_df df sel) > 0
      then sum_list (map Revenue (filtered_df df sel)) / real (length (filtered_df df sel))
      else 0)"

definition total_quantity :: "dataframe \<Rightarrow> selection \<Rightarrow> int" where
  "total_quantity df sel = sum_list (map Quantity (filtered_df df sel))"

text \<open>
  The script's variables touched by lines 95-121, as an explicit state: the statements
  bind new names and leave \<^verbatim>\<open>df\<close> as it was.
\<close>

record script_vars =
  var_df :: dataframe
  var_filtered_df :: dataframe
  var_previous_df :: dataframe
  var_growth_rate :: real

definition run_filters :: "selection \<Rightarrow> script_vars \<Rightarrow> script_vars" where
  "run_filters sel vars =
     (let vars1 = vars\<lparr>var_filtered_df := filtered_df (var_df vars) sel\<rparr>;
          vars2 = vars1\<lparr>var_previous_df := previous_df (var_df vars1) sel\<rparr>
      in vars2\<lparr>var_growth_rate :=
                 growth_rate_of (sum_list (map Revenue (var_filtered_df vars2)))
                                (sum_list (map Revenue (var_previous_df vars2)))\<rparr>)"

subsection \<open>Grouped tables (lines 190 and 237-240)\<close>

text \<open>
  \<^verbatim>\<open>groupby('Product')\<close> has one group per product that occurs, the groups in
  ascending key order. \<^verbatim>\<open>sort_values('Revenue', ascending=False)\<close> orders the rows by
  decreasing revenue; \<^verbatim>\<open>head(n)\<close> keeps the first \<open>n\<close> rows. Rows of equal revenue
  are kept in group order here; nothing below depends on how ties are ordered.
\<close>

definition group_keys :: "dataframe \<Rightarrow> string list" where
  "group_keys f = sort (remdups (map Product f))"

definition group_revenue :: "dataframe \<Rightarrow> string \<Rightarrow> real" where
  "group_revenue f p = sum_list (map Revenue (filter (\<lambda>r. Product r = p) f))"

definition group_quantity :: "dataframe \<Rightarrow> string \<Rightarrow> int" where
  "group_quantity f p = sum_list (map Quantity (filter (\<lambda>r. Product r = p) f))"

definition sort_values_desc :: "('a \<Rightarrow> real) \<Rightarrow> 'a list \<Rightarrow> 'a list" where
  "sort_values_desc col rows = sort_key (\<lambda>row. - col row) rows"

definition product_revenue :: "dataframe \<Rightarrow> selection \<Rightarrow> (string \<times> real) list" where
  "product_revenue df sel =
     (let f = filtered_df df sel
      in take 8 (sort_values_desc snd (map (\<lambda>p. (p, group_revenue f p)) (group_keys f))))"

definition top_products :: "dataframe \<Rightarrow> selection \<Rightarrow> (string \<times> int \<times> real) list" where
  "top_products df sel =
     (let f = filtered_df df sel
      in take 5 (sort_values_desc (\<lambda>row. snd (snd row))
                   (map (\<lambda>p. (p, group_quantity f p, group_revenue f p)) (group_keys f))))"

subsection \<open>Sample inputs\<close>

text \<open>A three-row log and a selection whose window is days 11 to 13.\<close>

definition demo_df :: dataframe where
  "demo_df =
     [\<lparr>Date = 5, Product = ''Laptop'', Category = ''Computers'', Region = ''Asia'',
       Quantity = 2, Unit_Price = 500, Revenue = 1000\<rparr>,
      \<lparr>Date = 9, Product = ''Mouse'', Category = ''Accessories'', Region = ''Europe'',
       Quantity = 4, Unit_Price = 25, Revenue = 100\<rparr>,
      \<lparr>Date = 12, Product = ''Laptop'', Category = ''Computers'', Region = ''Asia'',
       Quantity = 1, Unit_Price = 1100, Revenue = 1100\<rparr>]"

definition demo_sel :: selection where
  "demo_sel = \<lparr>start_date = 11, end_date = 13,
               selected_categories = [''Computers'', ''Accessories''],
               selected_regions = [''Asia'', ''Europe''],
               selected_products = [''Laptop'', ''Mouse'']\<rparr>"

definition empty_regions_sel :: selection where
  "empty_regions_sel = demo_sel\<lparr>start_date := 5, selected_regions := []\<rparr>"

definition whole_log_sel :: selection where
  "whole_log_sel = demo_sel\<lparr>start_date := 5\<rparr>"

text \<open>
  The first row the generator appends when it runs on \<open>stub_np\<close>: 14 transactions
  on 2024-01-01 (day 738886), the first product, the price 500 + 1500 / 375000 = 500.004,
  the quantity 9, the first region.
\<close>

definition stub_first_sale :: sale where
  "stub_first_sale =
     \<lparr>Date = 738886, Product = ''Laptop'', Category = ''Computers'',
      Region = ''North America'', Quantity = 9, Unit_Price = 500,
      Revenue = 4500.04\<rparr>"

text \<open>
  The rows of 2024-01-01 when the generator runs on \<open>cnt_np\<close>: the counter starts at
  42, the first draw gives 5 + 42 mod 10 = 7 transactions, and each row uses seven
  counter values (43 to 49 for the first: product 43 mod 8 = 3, price
  50 + 350 * 0.044 = 65.4, quantity 1 + 48 mod 9 = 4, region 49 mod 5 = 4).
\<close>

definition cnt_first_day :: dataframe where
  "cnt_first_day =
     [\<lparr>Date = 738886, Product = ''Headphones'', Category = ''Audio'',
       Region = ''Africa'', Quantity = 4, Unit_Price = 65.4, Revenue = 261.6\<rparr>,
      \<lparr>Date = 738886, Product = ''Tablet'', Category = ''Electronics'',
       Region = ''Europe'', Quantity = 2, Unit_Price = 345.9, Revenue = 691.8\<rparr>,
      \<lparr>Date = 738886, Product = ''Smartphone'', Category = ''Electronics'',
       Region = ''South America'', Quantity = 9, Unit_Price = 352.2, Revenue = 3169.8\<rparr>,
      \<lparr>Date = 738886, Product = ''Laptop'', Category = ''Computers'',
       Region = ''North America'', Quantity = 7, Unit_Price = 597.5, Revenue = 4182.5\<rparr>,
      \<lparr>Date = 738886, Product = ''Webcam'', Category = ''Audio'',
       Region = ''Asia'', Quantity = 5, Unit_Price = 75.2, Revenue = 376\<rparr>,
      \<lparr>Date = 738886, Product = ''Mouse'', Category = ''Accessories'',
       Region = ''Africa'', Quantity = 3, Unit_Price = 30.27, Revenue = 90.81\<rparr>,
      \<lparr>Date = 738886, Product = ''Keyboard'', Category = ''Accessories'',
       Region = ''Europe'', Quantity = 1, Unit_Price = 31.18, Revenue = 31.18\<rparr>]"

section \<open>Properties of the filter pipeline\<close>

text \<open>
  C3: a record of the log is in the filtered subset exactly when its date lies in the
  selected range and its category, region and product are all among the selected ones.
\<close>

theorem filtered_df_conjunctive:
  "\<forall>r\<in>set df.
     r \<in> set (filtered_df df sel) \<longleftrightarrow>
       (start_date sel \<le> Date r \<and> Date r \<le> end_date sel) \<and>
       Category r \<in> set (selected_categories sel) \<and>
       Region r \<in> set (selected_regions sel) \<and>
       Product r \<in> set (selected_products sel)"
  by (auto simp: filtered_df_def)

theorem filtered_df_conjunctive_witness:
  "demo_df ! 2 \<in> set demo_df \<and> demo_df ! 2 \<in> set (filtered_df demo_df demo_sel) \<and>
   demo_df ! 1 \<in> set demo_df \<and> demo_df ! 1 \<notin> set (filtered_df demo_df demo_sel) \<and>
   \<not> start_date demo_sel \<le> Date (demo_df ! 1)"
proof -
  have m: "demo_df ! 2 \<in> set demo_df" "demo_df ! 1 \<in> set demo_df"
    by (simp_all add: demo_df_def)
  from filtered_df_conjunctive [of demo_df demo_sel] m
  have "demo_df ! 2 \<in> set (filtered_df demo_df demo_sel)"
    and "demo_df ! 1 \<notin> set (filtered_df demo_df demo_sel)"
    by (simp_all add: demo_df_def demo_sel_def)
  with m show ?thesis
    by (simp add: demo_df_def demo_sel_def)
qed

text \<open>
  C4: for a selection with \<open>start_date \<le> end_date\<close>, the previous window is computed
  as the specification writes it (the script's \<open>start_date - period_days\<close> is
  \<open>previous_end - period_days + 1\<close>), it has as many days as the selected period, and the
  previous subset is the full log filtered by that window and the same three
  membership tests.
\<close>

theorem previous_window:
  assumes "start_date sel \<le> end_date sel"
  shows "period_days sel = (end_date sel - start_date sel) + 1 \<and>
         previous_end sel = start_date sel - 1 \<and>
         previous_start sel = previous_end sel - period_days sel + 1 \<and>
         1 \<le> period_days sel \<and>
         previous_end sel - previous_start sel + 1 = period_days sel \<and>
         previous_end sel - previous_start sel + 1 = end_date sel - start_date sel + 1 \<and>
         previous_df df sel =
           filter (\<lambda>r. (previous_start sel \<le> Date r \<and> Date r \<le> previous_end sel) \<and>
                       Category r \<in> set (selected_categories sel) \<and>
                       Region r \<in> set (selected_regions sel) \<and>
                       Product r \<in> set (selected_products sel)) df"
  using assms
  by (simp add: period_days_def previous_end_def previous_start_def previous_df_def)

theorem previous_window_witness:
  "start_date demo_sel \<le> end_date demo_sel \<and>
   period_days demo_sel = 3 \<and> previous_start demo_sel = 8 \<and> previous_end demo_sel = 10 \<and>
   previous_df demo_df demo_sel = [demo_df ! 1]"
proof -
  have h: "start_date demo_sel \<le> end_date demo_sel"
    by (simp add: demo_sel_def)
  have "previous_df demo_df demo_sel = [demo_df ! 1]"
    using previous_window [OF h, of demo_df]
    by (simp add: demo_sel_def demo_df_def period_days_def previous_start_def
          previous_end_def)
  then show ?thesis
    using h
    by (simp add: demo_sel_def period_days_def previous_start_def previous_end_def)
qed

text \<open>
  C9: for a selection with \<open>start_date \<le> end_date\<close>, the previous window ends the day
  before the selected one starts, the two windows share no day, and no record is in both
  the filtered and the previous subset.
\<close>

theorem periods_disjoint:
  assumes "start_date sel \<le> end_date sel"
  shows "previous_end sel = start_date sel - 1 \<and>
         previous_start sel \<le> previous_end sel \<and>
         previous_end sel < start_date sel \<and>
         {previous_start sel..previous_end sel} \<inter> {start_date sel..end_date sel} = {} \<and>
         set (filtered_df df sel) \<inter> set (previous_df df sel) = {}"
  using assms
  by (auto simp: previous_end_def previous_start_def period_days_def filtered_df_def
        previous_df_def)

theorem periods_disjoint_witness:
  "start_date demo_sel \<le> end_date demo_sel \<and>
   {previous_start demo_sel..previous_end demo_sel} \<inter> {11..13} = {} \<and>
   filtered_df demo_df demo_sel = [demo_df ! 2] \<and>
   demo_df ! 2 \<notin> set (previous_df demo_df demo_sel)"
proof -
  have h: "start_date demo_sel \<le> end_date demo_sel"
    by (simp add: demo_sel_def)
  have f: "filtered_df demo_df demo_sel = [demo_df ! 2]"
    by (simp add: filtered_df_def demo_sel_def demo_df_def)
  from periods_disjoint [OF h, of demo_df] f h show ?thesis
    by (simp add: demo_sel_def)
qed

text \<open>
  C10: the filtered and the previous subset are subsequences of the log (its rows,
  whole, in the log's order), and running lines 95-121 leaves the variable
  \<^verbatim>\<open>df\<close> as it was.
\<close>

theorem filters_frame:
  "subseq (filtered_df df sel) df \<and> subseq (previous_df df sel) df \<and>
   var_df (run_filters sel vars) = var_df vars \<and>
   subseq (var_filtered_df (run_filters sel vars)) (var_df vars) \<and>
   subseq (var_previous_df (run_filters sel vars)) (var_df vars)"
  by (simp add: filtered_df_def previous_df_def run_filters_def Let_def)


theorem filters_frame_witness:
  "filtered_df demo_df demo_sel = [demo_df ! 2] \<and> subseq [demo_df ! 2] demo_df \<and>
   previous_df demo_df demo_sel = [demo_df ! 1] \<and> subseq [demo_df ! 1] demo_df \<and>
   var_df (run_filters demo_sel
             \<lparr>var_df = demo_df, var_filtered_df = [], var_previous_df = [],
              var_growth_rate = 0\<rparr>) = demo_df"
proof -
  have f: "filtered_df demo_df demo_sel = [demo_df ! 2]"
    by (simp add: filtered_df_def demo_sel_def demo_df_def)
  have p: "previous_df demo_df demo_sel = [demo_df ! 1]"
    by (simp add: previous_df_def previous_start_def previous_end_def period_days_def
          demo_sel_def demo_df_def)
  from filters_frame [of demo_df demo_sel
      "\<lparr>var_df = demo_df, var_filtered_df = [], var_previous_df = [], var_growth_rate = 0\<rparr>"]
  show ?thesis
    unfolding f p by simp
qed

text \<open>
  C5: when the selected categories, regions or products are empty, the filtered subset
  is empty and the five KPIs are 0.
\<close>

theorem empty_selection_zero:
  assumes "selected_categories sel = [] \<or> selected_regions sel = [] \<or>
           selected_products sel = []"
  shows "filtered_df df sel = [] \<and>
         total_revenue df sel = 0 \<and>
         total_transactions df sel = 0 \<and>
         avg_transaction df sel = 0 \<and>
         total_quantity df sel = 0 \<and>
         growth_rate df sel = 0"
proof -
  have f: "filtered_df df sel = []"
    using assms by (auto simp: filtered_df_def filter_empty_conv)
  have p: "previous_df df sel = []"
    using assms by (auto simp: previous_df_def filter_empty_conv)
  show ?thesis
    by (simp add: f p total_revenue_def total_transactions_def avg_transaction_def
          total_quantity_def growth_rate_def growth_rate_of_def current_revenue_def
          previous_revenue_def)
qed

theorem empty_selection_zero_witness:
  "selected_regions empty_regions_sel = [] \<and>
   filtered_df demo_df empty_regions_sel = [] \<and>
   total_revenue demo_df empty_regions_sel = 0 \<and>
   total_transactions demo_df empty_regions_sel = 0 \<and>
   avg_transaction demo_df empty_regions_sel = 0 \<and>
   total_quantity demo_df empty_regions_sel = 0 \<and>
   growth_rate demo_df empty_regions_sel = 0"
proof -
  have h: "selected_regions empty_regions_sel = []"
    by (simp add: empty_regions_sel_def)
  then have "selected_categories empty_regions_sel = [] \<or>
             selected_regions empty_regions_sel = [] \<or>
             selected_products empty_regions_sel = []"
    by simp
  from empty_selection_zero [OF this, of demo_df] h show ?thesis
    by simp
qed

text \<open>
  C2: the growth rate is \<open>(current - previous) / previous * 100\<close> when the previous
  period's revenue is positive and 0 when it is zero, whatever the current revenue;
  1200 against 1000 gives 20, 500 against 0 gives 0.
\<close>

theorem growth_rate_policy:
  "(previous_revenue df sel > 0 \<longrightarrow>
      growth_rate df sel =
        (current_revenue df sel - previous_revenue df sel) / previous_revenue df sel * 100) \<and>
   (previous_revenue df sel = 0 \<longrightarrow> growth_rate df sel = 0) \<and>
   (previous > 0 \<longrightarrow>
      growth_rate_of current previous = (current - previous) / previous * 100) \<and>
   (previous = 0 \<longrightarrow> growth_rate_of current previous = 0) \<and>
   growth_rate_of 1200 1000 = 20 \<and>
   growth_rate_of 500 0 = 0"
  by (simp add: growth_rate_def growth_rate_of_def)

theorem growth_rate_policy_witness:
  "previous_revenue demo_df demo_sel = 100 \<and> current_revenue demo_df demo_sel = 1100 \<and>
   growth_rate demo_df demo_sel = 1000 \<and>
   previous_revenue demo_df whole_log_sel = 0 \<and>
   current_revenue demo_df whole_log_sel = 2200 \<and>
   growth_rate demo_df whole_log_sel = 0 \<and>
   growth_rate_of 1200 1000 = 20 \<and> growth_rate_of 500 0 = 0"
proof -
  have p: "previous_revenue demo_df demo_sel = 100"
    by (simp add: previous_revenue_def previous_df_def previous_start_def previous_end_def
          period_days_def demo_df_def demo_sel_def)
  have c: "current_revenue demo_df demo_sel = 1100"
    by (simp add: current_revenue_def filtered_df_def demo_df_def demo_sel_def)
  have z: "previous_revenue demo_df whole_log_sel = 0"
    by (simp add: previous_revenue_def previous_df_def previous_start_def previous_end_def
          period_days_def demo_df_def demo_sel_def whole_log_sel_def)
  have w: "current_revenue demo_df whole_log_sel = 2200"
    by (simp add: current_revenue_def filtered_df_def demo_df_def demo_sel_def
          whole_log_sel_def)
  from growth_rate_policy [of demo_df demo_sel 1000 1200]
    growth_rate_policy [of demo_df whole_log_sel 0 500] p c z w
  show ?thesis by simp
qed

section \<open>Properties of the grouped tables\<close>

lemma sort_values_desc_sorted:
  "sorted_wrt (\<ge>) (map col (sort_values_desc col rows))"
proof -
  have "sorted (map (\<lambda>row. - col row) (sort_key (\<lambda>row. - col row) rows))"
    by (rule sorted_sort_key)
  then show ?thesis
    by (simp add: sort_values_desc_def sorted_wrt_map)
qed

lemma set_sort_values_desc: "set (sort_values_desc col rows) = set rows"
  by (simp add: sort_values_desc_def)

lemma head_sorted_desc:
  "sorted_wrt (\<ge>) (map col (take n (sort_values_desc col rows)))"
proof -
  have "sorted_wrt (\<ge>) (take n (map col (sort_values_desc col rows)))"
    by (rule sorted_wrt_take) (rule sort_values_desc_sorted)
  then show ?thesis by (simp add: take_map)
qed

lemma head_rows: "set (take n (sort_values_desc col rows)) \<subseteq> set rows"
  using set_take_subset [of n "sort_values_desc col rows"]
  by (simp add: set_sort_values_desc)

text \<open>
  C7: the top-products-by-revenue table has at most 8 rows, the best-selling table at
  most 5; both are in descending order of their revenue column, and that column (and the
  quantity column of the second) holds the sums over the filtered rows of the product.
\<close>

theorem top_tables_sorted:
  "length (product_revenue df sel) \<le> 8 \<and>
   sorted_wrt (\<ge>) (map snd (product_revenue df sel)) \<and>
   map snd (product_revenue df sel) =
     map (group_revenue (filtered_df df sel)) (map fst (product_revenue df sel)) \<and>
   length (top_products df sel) \<le> 5 \<and>
   sorted_wrt (\<ge>) (map (\<lambda>row. snd (snd row)) (top_products df sel)) \<and>
   map (\<lambda>row. snd (snd row)) (top_products df sel) =
     map (group_revenue (filtered_df df sel)) (map fst (top_products df sel)) \<and>
   map (\<lambda>row. fst (snd row)) (top_products df sel) =
     map (group_quantity (filtered_df df sel)) (map fst (top_products df sel))"
proof -
  let ?f = "filtered_df df sel"
  have a: "length (product_revenue df sel) \<le> 8"
    by (simp add: product_revenue_def Let_def)
  have b: "sorted_wrt (\<ge>) (map snd (product_revenue df sel))"
    unfolding product_revenue_def Let_def by (rule head_sorted_desc)
  have c: "snd r = group_revenue ?f (fst r)" if "r \<in> set (product_revenue df sel)" for r
    using that head_rows [of 8 snd "map (\<lambda>p. (p, group_revenue ?f p)) (group_keys ?f)"]
    by (auto simp: product_revenue_def Let_def)
  have d: "length (top_products df sel) \<le> 5"
    by (simp add: top_products_def Let_def)
  have e: "sorted_wrt (\<ge>) (map (\<lambda>row. snd (snd row)) (top_products df sel))"
    unfolding top_products_def Let_def by (rule head_sorted_desc)
  have g: "snd (snd r) = group_revenue ?f (fst r) \<and> fst (snd r) = group_quantity ?f (fst r)"
    if "r \<in> set (top_products df sel)" for r
    using that head_rows [of 5 "\<lambda>row. snd (snd row)"
        "map (\<lambda>p. (p, group_quantity ?f p, group_revenue ?f p)) (group_keys ?f)"]
    by (auto simp: top_products_def Let_def)
  from a b c d e g show ?thesis by simp
qed


theorem top_tables_sorted_witness:
  "product_revenue demo_df whole_log_sel = [(''Laptop'', 2100), (''Mouse'', 100)] \<and>
   top_products demo_df whole_log_sel = [(''Laptop'', 3, 2100), (''Mouse'', 4, 100)] \<and>
   length (product_revenue demo_df whole_log_sel) \<le> 8 \<and>
   length (top_products demo_df whole_log_sel) \<le> 5 \<and>
   sorted_wrt (\<ge>) (map snd (product_revenue demo_df whole_log_sel))"
proof -
  have a: "product_revenue demo_df whole_log_sel = [(''Laptop'', 2100), (''Mouse'', 100)]"
    by (simp add: product_revenue_def filtered_df_def demo_df_def demo_sel_def
          whole_log_sel_def group_keys_def group_revenue_def sort_values_desc_def)
  have b: "top_products demo_df whole_log_sel = [(''Laptop'', 3, 2100), (''Mouse'', 4, 100)]"
    by (simp add: top_products_def filtered_df_def demo_df_def demo_sel_def
          whole_log_sel_def group_keys_def group_revenue_def group_quantity_def
          sort_values_desc_def)
  from top_tables_sorted [of demo_df whole_log_sel]
  have "length (product_revenue demo_df whole_log_sel) \<le> 8 \<and>
        length (top_products demo_df whole_log_sel) \<le> 5 \<and>
        sorted_wrt (\<ge>) (map snd (product_revenue demo_df whole_log_sel))"
    by blast
  with a b show ?thesis by blast
qed

section \<open>Properties of the data generator\<close>

subsection \<open>Both iterations append rows made by the body of the inner one\<close>

lemma make_sale_Date: "Date (fst (make_sale np d g)) = d"
  by (simp add: make_sale_def Let_def split: prod.splits)

lemma transactions_loop_appends:
  "\<exists>new. fst (transactions_loop np d n (data, g)) = data @ new \<and> length new = n \<and>
         (\<forall>r\<in>set new. \<exists>g'. r = fst (make_sale np d g'))"
proof (induction n arbitrary: data g)
  case 0
  then show ?case by simp
next
  case (Suc n)
  obtain row g' where m: "make_sale np d g = (row, g')"
    by (cases "make_sale np d g")
  from Suc.IH [of "data @ [row]" g'] obtain new where
    n: "fst (transactions_loop np d n (data @ [row], g')) = (data @ [row]) @ new"
       "length new = n" "\<forall>r\<in>set new. \<exists>g'. r = fst (make_sale np d g')"
    by blast
  have "row = fst (make_sale np d g)" using m by simp
  then have "\<forall>r\<in>set (row # new). \<exists>g'. r = fst (make_sale np d g')"
    using n(3) by auto
  moreover have "fst (transactions_loop np d (Suc n) (data, g)) = data @ (row # new)"
    using m n(1) by simp
  moreover have "length (row # new) = Suc n" using n(2) by simp
  ultimately show ?case by blast
qed

lemma dates_loop_appends:
  "\<exists>new. fst (dates_loop np ds (data, g)) = data @ new \<and>
         (\<forall>r\<in>set new. Date r \<in> set ds \<and> (\<exists>g'. r = fst (make_sale np (Date r) g')))"
proof (induction ds arbitrary: data g)
  case Nil
  then show ?case by simp
next
  case (Cons d ds)
  obtain k g' where r: "randint np 5 15 g = (k, g')"
    by (cases "randint np 5 15 g")
  obtain data1 g1 where t: "transactions_loop np d (nat k) (data, g') = (data1, g1)"
    by (cases "transactions_loop np d (nat k) (data, g')")
  from transactions_loop_appends [of np d "nat k" data g'] t obtain new1 where
    n1: "data1 = data @ new1" "\<forall>r\<in>set new1. \<exists>g'. r = fst (make_sale np d g')"
    by auto
  from Cons.IH [of data1 g1] obtain new2 where
    n2: "fst (dates_loop np ds (data1, g1)) = data1 @ new2"
        "\<forall>r\<in>set new2. Date r \<in> set ds \<and> (\<exists>g'. r = fst (make_sale np (Date r) g'))"
    by blast
  have "fst (dates_loop np (d # ds) (data, g)) = data @ (new1 @ new2)"
    using r t n1(1) n2(1) by simp
  moreover have "Date r = d \<and> (\<exists>g'. r = fst (make_sale np (Date r) g'))"
    if "r \<in> set new1" for r
  proof -
    from n1(2) that obtain g2 where "r = fst (make_sale np d g2)" by blast
    then show ?thesis using make_sale_Date [of np d g2] by auto
  qed
  then have "\<forall>r\<in>set (new1 @ new2).
      Date r \<in> set (d # ds) \<and> (\<exists>g'. r = fst (make_sale np (Date r) g'))"
    using n2(2) by auto
  ultimately show ?case by blast
qed


lemma transactions_loop_count:
  "length (filter (\<lambda>r. Date r = d') (fst (transactions_loop np d n (data, g)))) =
   length (filter (\<lambda>r. Date r = d') data) + (if d' = d then n else 0)"
proof -
  from transactions_loop_appends [of np d n data g] obtain new where
    n: "fst (transactions_loop np d n (data, g)) = data @ new" "length new = n"
       "\<forall>r\<in>set new. \<exists>g'. r = fst (make_sale np d g')"
    by blast
  have dd: "\<forall>r\<in>set new. Date r = d"
    using n(3) by (auto simp: make_sale_Date)
  have "filter (\<lambda>r. Date r = d') new = (if d' = d then new else [])"
    using dd by (auto simp: filter_empty_conv filter_id_conv)
  then show ?thesis using n(1,2) by simp
qed

lemma dates_loop_count_other:
  assumes "d \<notin> set ds"
  shows "length (filter (\<lambda>r. Date r = d) (fst (dates_loop np ds (data, g)))) =
         length (filter (\<lambda>r. Date r = d) data)"
proof -
  from dates_loop_appends [of np ds data g] obtain new where
    n: "fst (dates_loop np ds (data, g)) = data @ new" "\<forall>r\<in>set new. Date r \<in> set ds"
    by blast
  have "filter (\<lambda>r. Date r = d) new = []"
    using n(2) assms by (auto simp: filter_empty_conv)
  then show ?thesis using n(1) by simp
qed

lemma dates_loop_count:
  assumes "distinct ds" "d \<in> set ds"
  shows "\<exists>g'. length (filter (\<lambda>r. Date r = d) (fst (dates_loop np ds (data, g)))) =
           length (filter (\<lambda>r. Date r = d) data) + nat (fst (randint np 5 15 g'))"
  using assms
proof (induction ds arbitrary: data g)
  case Nil
  then show ?case by simp
next
  case (Cons d0 ds)
  obtain k g' where r: "randint np 5 15 g = (k, g')"
    by (cases "randint np 5 15 g")
  obtain data1 g1 where t: "transactions_loop np d0 (nat k) (data, g') = (data1, g1)"
    by (cases "transactions_loop np d0 (nat k) (data, g')")
  have c1: "length (filter (\<lambda>r. Date r = d) data1) =
            length (filter (\<lambda>r. Date r = d) data) + (if d = d0 then nat k else 0)"
    using transactions_loop_count [of d np d0 "nat k" data g'] t by simp
  have step: "dates_loop np (d0 # ds) (data, g) = dates_loop np ds (data1, g1)"
    using r t by simp
  show ?case
  proof (cases "d = d0")
    case True
    then have "d \<notin> set ds" using Cons.prems by simp
    from dates_loop_count_other [OF this, of np data1 g1] c1 True
    have "length (filter (\<lambda>r. Date r = d) (fst (dates_loop np (d0 # ds) (data, g)))) =
          length (filter (\<lambda>r. Date r = d) data) + nat (fst (randint np 5 15 g))"
      unfolding step using r by simp
    then show ?thesis by blast
  next
    case False
    then have "d \<in> set ds" "distinct ds" using Cons.prems by auto
    from Cons.IH [OF this(2,1), of data1 g1] c1 False show ?thesis
      unfolding step by simp
  qed
qed

subsection \<open>Two-decimal rounding\<close>

lemma py_round2_nearest:
  "\<exists>k. py_round2 x = of_int k / 100 \<and> \<lfloor>x * 100\<rfloor> \<le> k \<and>
       (k = \<lfloor>x * 100\<rfloor> \<or> (k = \<lfloor>x * 100\<rfloor> + 1 \<and> of_int \<lfloor>x * 100\<rfloor> < x * 100)) \<and>
       \<bar>of_int k - x * 100\<bar> \<le> 1 / 2"
proof -
  define f where "f = \<lfloor>x * 100\<rfloor>"
  define d where "d = x * 100 - of_int f"
  have d: "0 \<le> d" "d < 1"
    unfolding d_def f_def by linarith+
  define k where "k = (if d < 1 / 2 then f else if 1 / 2 < d then f + 1
                       else if even f then f else f + 1)"
  have r: "py_round2 x = of_int k / 100"
    by (simp add: py_round2_def Let_def k_def d_def f_def)
  have "k = f \<and> d \<le> 1 / 2 \<or> k = f + 1 \<and> 1 / 2 \<le> d"
    unfolding k_def by auto
  then have "f \<le> k \<and> (k = f \<or> (k = f + 1 \<and> of_int f < x * 100)) \<and>
             \<bar>of_int k - x * 100\<bar> \<le> 1 / 2"
    using d unfolding d_def by auto
  with r show ?thesis unfolding f_def by blast
qed

lemma py_round2_ge:
  assumes "of_int n \<le> x"
  shows "of_int n \<le> py_round2 x"
proof -
  from py_round2_nearest [of x] obtain k where
    k: "py_round2 x = of_int k / 100" "\<lfloor>x * 100\<rfloor> \<le> k"
    by blast
  have "of_int (n * 100) \<le> x * 100" using assms by simp
  then have "n * 100 \<le> \<lfloor>x * 100\<rfloor>" by (simp only: le_floor_iff)
  with k(2) have "n * 100 \<le> k" by linarith
  then have "(of_int (n * 100) :: real) \<le> of_int k" by (simp only: of_int_le_iff)
  with k(1) show ?thesis by simp
qed

lemma py_round2_le:
  assumes "x \<le> of_int n"
  shows "py_round2 x \<le> of_int n"
proof -
  from py_round2_nearest [of x] obtain k where
    k: "py_round2 x = of_int k / 100"
       "k = \<lfloor>x * 100\<rfloor> \<or> (k = \<lfloor>x * 100\<rfloor> + 1 \<and> of_int \<lfloor>x * 100\<rfloor> < x * 100)"
    by blast
  have u: "x * 100 \<le> of_int (n * 100)" using assms by simp
  then have f: "\<lfloor>x * 100\<rfloor> \<le> n * 100" by (simp only: floor_le_iff)
  have "k \<le> n * 100"
  proof (cases "k = \<lfloor>x * 100\<rfloor>")
    case True
    with f show ?thesis by simp
  next
    case False
    with k(2) have k1: "k = \<lfloor>x * 100\<rfloor> + 1" and lt: "of_int \<lfloor>x * 100\<rfloor> < x * 100"
      by auto
    from lt u have "(of_int \<lfloor>x * 100\<rfloor> :: real) < of_int (n * 100)" by linarith
    then have "\<lfloor>x * 100\<rfloor> < n * 100" by (simp only: of_int_less_iff)
    with k1 show ?thesis by linarith
  qed
  then have "(of_int k :: real) \<le> of_int (n * 100)" by (simp only: of_int_le_iff)
  with k(1) show ?thesis by simp
qed

subsection \<open>One row\<close>

lemma datetime_start: "datetime 2024 1 1 = 738886"
  by (simp add: datetime_def days_before_year_def days_before_month_def)

lemma datetime_stop: "datetime 2024 11 24 = 739214"
  by (simp add: datetime_def days_before_year_def days_before_month_def days_in_month_def
        is_leap_def upto.simps)

lemma uniform_in_range:
  assumes "np_contract np" "low < high" "uniform np low high g = (v, g')"
  shows "low \<le> v \<and> v < high"
proof -
  from assms(1,2) have "low \<le> fst (uniform np low high g) \<and> fst (uniform np low high g) < high"
    unfolding np_contract_def by blast
  with assms(3) show ?thesis by simp
qed

lemma randint_in_range:
  assumes "np_contract np" "low < high" "randint np low high g = (v, g')"
  shows "low \<le> v \<and> v < high"
proof -
  from assms(1,2) have "low \<le> fst (randint np low high g) \<and> fst (randint np low high g) < high"
    unfolding np_contract_def by blast
  with assms(3) show ?thesis by simp
qed

lemma choice_in_list:
  assumes "np_contract np" "a \<noteq> []" "choice np a g = (v, g')"
  shows "v \<in> set a"
proof -
  from assms(1,2) have "fst (choice np a g) \<in> set a"
    unfolding np_contract_def by blast
  with assms(3) show ?thesis by simp
qed

lemma stored_price_in_range:
  assumes "fst (price_range_of c) \<le> price" "price \<le> snd (price_range_of c)"
  shows "fst (price_range_of c) \<le> py_round2 price \<and> py_round2 price \<le> snd (price_range_of c)"
proof -
  obtain lo hi :: int where
    b: "fst (price_range_of c) = of_int lo" "snd (price_range_of c) = of_int hi"
  proof (cases "c = ''Computers''")
    case True
    then show ?thesis using that [of 500 2000] by (simp add: price_range_of_def)
  next
    case False
    show ?thesis
    proof (cases "c = ''Electronics''")
      case True
      then show ?thesis using that [of 300 1200] by (simp add: price_range_of_def)
    next
      case e: False
      show ?thesis
      proof (cases "c = ''Audio''")
        case True
        then show ?thesis using that [of 50 400] by (simp add: price_range_of_def)
      next
        case a: False
        with False e show ?thesis using that [of 20 150] by (simp add: price_range_of_def)
      qed
    qed
  qed
  from assms show ?thesis
    unfolding b using py_round2_ge [of lo price] py_round2_le [of price hi] by simp
qed


lemma price_range_of_category:
  "price_range_of (category_of p) =
     (if p \<in> {''Laptop'', ''Monitor''} then (500, 2000)
      else if p \<in> {''Smartphone'', ''Tablet''} then (300, 1200)
      else if p \<in> {''Headphones'', ''Webcam''} then (50, 400)
      else (20, 150))"
  by (simp add: price_range_of_def category_of_def)

lemma category_and_price_eq:
  "category_and_price np p g =
     (category_of p,
      uniform np (fst (price_range_of (category_of p))) (snd (price_range_of (category_of p))) g)"
proof -
  consider (a) "p \<in> {''Laptop'', ''Monitor''}"
    | (b) "p \<notin> {''Laptop'', ''Monitor''}" "p \<in> {''Smartphone'', ''Tablet''}"
    | (c) "p \<notin> {''Laptop'', ''Monitor''}" "p \<notin> {''Smartphone'', ''Tablet''}"
          "p \<in> {''Headphones'', ''Webcam''}"
    | (d) "p \<notin> {''Laptop'', ''Monitor''}" "p \<notin> {''Smartphone'', ''Tablet''}"
          "p \<notin> {''Headphones'', ''Webcam''}"
    by argo
  then show ?thesis
  proof cases
    case a
    have pr: "price_range_of (category_of p) = (500, 2000)"
      unfolding price_range_of_category by (simp only: a if_True)
    have co: "category_of p = ''Computers''"
      unfolding category_of_def by (simp only: a if_True)
    have "category_and_price np p g = (''Computers'', uniform np 500 2000 g)"
      unfolding category_and_price_def list.set
      by (simp only: a if_True Let_def split_beta prod.collapse)
    then show ?thesis
      unfolding pr by (simp only: co fst_conv snd_conv)
  next
    case b
    have pr: "price_range_of (category_of p) = (300, 1200)"
      unfolding price_range_of_category by (simp only: b if_True if_False)
    have co: "category_of p = ''Electronics''"
      unfolding category_of_def by (simp only: b if_True if_False)
    have "category_and_price np p g = (''Electronics'', uniform np 300 1200 g)"
      unfolding category_and_price_def list.set
      by (simp only: b if_True if_False Let_def split_beta prod.collapse)
    then show ?thesis
      unfolding pr by (simp only: co fst_conv snd_conv)
  next
    case c
    have pr: "price_range_of (category_of p) = (50, 400)"
      unfolding price_range_of_category by (simp only: c if_True if_False)
    have co: "category_of p = ''Audio''"
      unfolding category_of_def by (simp only: c if_True if_False)
    have "category_and_price np p g = (''Audio'', uniform np 50 400 g)"
      unfolding category_and_price_def list.set
      by (simp only: c if_True if_False Let_def split_beta prod.collapse)
    then show ?thesis
      unfolding pr by (simp only: co fst_conv snd_conv)
  next
    case d
    have pr: "price_range_of (category_of p) = (20, 150)"
      unfolding price_range_of_category by (simp only: d if_False)
    have co: "category_of p = ''Accessories''"
      unfolding category_of_def by (simp only: d if_False)
    have "category_and_price np p g = (''Accessories'', uniform np 20 150 g)"
      unfolding category_and_price_def list.set
      by (simp only: d if_False Let_def split_beta prod.collapse)
    then show ?thesis
      unfolding pr by (simp only: co fst_conv snd_conv)
  qed
qed

lemma make_sale_eq:
  "make_sale np d g =
     (let c1 = choice np products g;
          cat = category_of (fst c1);
          u = uniform np (fst (price_range_of cat)) (snd (price_range_of cat)) (snd c1);
          q = randint np 1 10 (snd u);
          c2 = choice np regions (snd q)
      in (\<lparr>Date = d, Product = fst c1, Category = cat, Region = fst c2, Quantity = fst q,
           Unit_Price = py_round2 (fst u),
           Revenue = py_round2 (float_mul np (fst u) (of_int (fst q)))\<rparr>, snd c2))"
  by (simp add: make_sale_def category_and_price_eq Let_def split_beta)


lemma make_sale_calls:
  assumes "r = fst (make_sale np d g)"
  shows "\<exists>c1 u q c2.
           c1 = choice np products g \<and>
           u = uniform np (fst (price_range_of (category_of (fst c1))))
                 (snd (price_range_of (category_of (fst c1)))) (snd c1) \<and>
           q = randint np 1 10 (snd u) \<and>
           c2 = choice np regions (snd q) \<and>
           Product r = fst c1 \<and> Category r = category_of (fst c1) \<and>
           Unit_Price r = py_round2 (fst u) \<and> Quantity r = fst q \<and> Region r = fst c2"
  unfolding assms make_sale_eq Let_def by simp

lemma make_sale_draws:
  assumes "np_contract np" "r = fst (make_sale np d g)"
  shows "Product r \<in> set products \<and> Category r = category_of (Product r) \<and>
         1 \<le> Quantity r \<and> Quantity r < 10 \<and> Region r \<in> set regions \<and>
         fst (price_range_of (Category r)) \<le> Unit_Price r \<and>
         Unit_Price r \<le> snd (price_range_of (Category r))"
proof -
  from make_sale_calls [OF assms(2)] obtain c1 u q c2 where
    c: "c1 = choice np products g"
       "u = uniform np (fst (price_range_of (category_of (fst c1))))
              (snd (price_range_of (category_of (fst c1)))) (snd c1)"
       "q = randint np 1 10 (snd u)" "c2 = choice np regions (snd q)"
    and f: "Product r = fst c1" "Category r = category_of (fst c1)"
       "Unit_Price r = py_round2 (fst u)" "Quantity r = fst q" "Region r = fst c2"
    by blast
  have "fst c1 \<in> set products"
    using choice_in_list [OF assms(1), of products g "fst c1" "snd c1"] c(1)
    by (simp add: products_def)
  moreover have "fst c2 \<in> set regions"
    using choice_in_list [OF assms(1), of regions "snd q" "fst c2" "snd c2"] c(4)
    by (simp add: regions_def)
  moreover have "1 \<le> fst q \<and> fst q < 10"
    using randint_in_range [OF assms(1), of 1 10 "snd u" "fst q" "snd q"] c(3) by simp
  moreover have "fst (price_range_of (category_of (fst c1))) <
                 snd (price_range_of (category_of (fst c1)))"
    unfolding price_range_of_category by simp
  then have "fst (price_range_of (category_of (fst c1))) \<le> fst u \<and>
             fst u < snd (price_range_of (category_of (fst c1)))"
    using uniform_in_range [OF assms(1) _ , of _ _ "snd c1" "fst u" "snd u"] c(2) by simp
  then have "fst (price_range_of (category_of (fst c1))) \<le> py_round2 (fst u) \<and>
             py_round2 (fst u) \<le> snd (price_range_of (category_of (fst c1)))"
    by (intro stored_price_in_range) simp_all
  ultimately show ?thesis unfolding f by simp
qed

subsection \<open>The whole log\<close>

lemma set_pd_date_range: "set (pd_date_range start stop) = {start..stop}"
  by (simp add: pd_date_range_def)

lemma rows_are_made:
  assumes "r \<in> set (fst (generate_sales_data np g0))"
  shows "datetime 2024 1 1 \<le> Date r \<and> Date r \<le> datetime 2024 11 24 \<and>
         (\<exists>g. r = fst (make_sale np (Date r) g))"
proof -
  let ?ds = "pd_date_range (datetime 2024 1 1) (datetime 2024 11 24)"
  from dates_loop_appends [of np ?ds "[]" "seed np 42"] obtain new where
    n: "fst (dates_loop np ?ds ([], seed np 42)) = [] @ new"
       "\<forall>r\<in>set new. Date r \<in> set ?ds \<and> (\<exists>g'. r = fst (make_sale np (Date r) g'))"
    by blast
  from assms n(1) have "r \<in> set new"
    by (simp add: generate_sales_data_def)
  with n(2) have "Date r \<in> set ?ds" "\<exists>g'. r = fst (make_sale np (Date r) g')"
    by blast+
  then show ?thesis
    unfolding set_pd_date_range by simp
qed

lemma dates_loop_first:
  assumes "randint np 5 15 g0 = (k, g)" "0 < k"
  shows "fst (make_sale np d g) \<in> set (fst (dates_loop np (d # ds) ([], g0)))"
proof -
  obtain row g1 where m: "make_sale np d g = (row, g1)"
    by (cases "make_sale np d g")
  obtain n where k: "nat k = Suc n"
    using assms(2) by (cases "nat k") auto
  obtain data1 g2 where t: "transactions_loop np d n ([row], g1) = (data1, g2)"
    by (cases "transactions_loop np d n ([row], g1)")
  from transactions_loop_appends [of np d n "[row]" g1] t
  have r1: "row \<in> set data1" by auto
  have "dates_loop np (d # ds) ([], g0) = dates_loop np ds (data1, g2)"
    by (simp add: assms(1) k m t)
  moreover from dates_loop_appends [of np ds data1 g2] r1
  have "row \<in> set (fst (dates_loop np ds (data1, g2)))" by auto
  ultimately show ?thesis using m by simp
qed

lemma first_sale_in_log:
  assumes "randint np 5 15 (seed np 42) = (k, g)" "0 < k"
  shows "fst (make_sale np (datetime 2024 1 1) g) \<in> set (fst (generate_sales_data np g0))"
proof -
  have "datetime 2024 1 1 \<le> datetime 2024 11 24"
    by (simp add: datetime_start datetime_stop)
  then have "pd_date_range (datetime 2024 1 1) (datetime 2024 11 24) =
             datetime 2024 1 1 # [datetime 2024 1 1 + 1..datetime 2024 11 24]"
    unfolding pd_date_range_def by (rule upto_rec1)
  then have "generate_sales_data np g0 =
             dates_loop np (datetime 2024 1 1 # [datetime 2024 1 1 + 1..datetime 2024 11 24])
               ([], seed np 42)"
    by (simp add: generate_sales_data_def)
  with dates_loop_first [OF assms] show ?thesis by simp
qed

lemma first_day_in_log:
  assumes "randint np 5 15 (seed np 42) = (k, g)"
  shows "set (fst (transactions_loop np (datetime 2024 1 1) (nat k) ([], g))) \<subseteq>
         set (fst (generate_sales_data np g0))"
proof -
  obtain data1 g1 where
    t: "transactions_loop np (datetime 2024 1 1) (nat k) ([], g) = (data1, g1)"
    by (cases "transactions_loop np (datetime 2024 1 1) (nat k) ([], g)")
  have "datetime 2024 1 1 \<le> datetime 2024 11 24"
    by (simp add: datetime_start datetime_stop)
  then have "pd_date_range (datetime 2024 1 1) (datetime 2024 11 24) =
             datetime 2024 1 1 # [datetime 2024 1 1 + 1..datetime 2024 11 24]"
    unfolding pd_date_range_def by (rule upto_rec1)
  then have "generate_sales_data np g0 =
             dates_loop np [datetime 2024 1 1 + 1..datetime 2024 11 24] (data1, g1)"
    by (simp add: generate_sales_data_def assms t)
  moreover from dates_loop_appends [of np "[datetime 2024 1 1 + 1..datetime 2024 11 24]" data1 g1]
  have "set data1 \<subseteq>
        set (fst (dates_loop np [datetime 2024 1 1 + 1..datetime 2024 11 24] (data1, g1)))"
    by auto
  ultimately show ?thesis using t by simp
qed

subsection \<open>The two library instances\<close>



lemma stub_first_sale_in_log:
  "stub_first_sale \<in> set (fst (generate_sales_data stub_np 0))"
proof -
  have r: "randint stub_np 5 15 (seed stub_np 42) = (14, 1)"
    by (simp add: stub_np_def)
  have "fst (make_sale stub_np (datetime 2024 1 1) 1) = stub_first_sale"
    unfolding datetime_start
    by (simp add: make_sale_def stub_np_def products_def regions_def category_and_price_def
          py_round2_def stub_first_sale_def)
  with first_sale_in_log [OF r, of 0] show ?thesis by simp
qed

lemma cnt_uniform_in_range:
  fixes low high :: real
  assumes "low < high"
  shows "low \<le> low + (high - low) * (real (g mod 1000) / 1000) \<and>
         low + (high - low) * (real (g mod 1000) / 1000) < high"
proof -
  define t where "t = real (g mod 1000) / 1000"
  have "g mod 1000 < 1000" by simp
  then have t: "0 \<le> t" "t < 1" unfolding t_def by simp_all
  have "0 < high - low" using assms by simp
  with t have "0 \<le> (high - low) * t" "(high - low) * t < (high - low) * 1"
    by (simp_all only: mult_strict_left_mono zero_le_mult_iff) auto
  then show ?thesis unfolding t_def by simp
qed

lemma cnt_np_contract: "np_contract cnt_np"
proof -
  have r: "low \<le> low + int g mod (high - low) \<and> low + int g mod (high - low) < high"
    if "low < high" for low high :: int and g :: nat
  proof -
    have "0 < high - low" using that by simp
    then have "0 \<le> int g mod (high - low) \<and> int g mod (high - low) < high - low"
      by simp
    then show ?thesis by linarith
  qed
  have c: "a ! (g mod length a) \<in> set a" if "a \<noteq> []" for a :: "string list" and g :: nat
    using that by simp
  show ?thesis
    unfolding np_contract_def cnt_np_def
    using r c cnt_uniform_in_range by simp
qed

lemma cnt_rows:
  "make_sale cnt_np 738886 43 = (cnt_first_day ! 0, 50)"
  "make_sale cnt_np 738886 50 = (cnt_first_day ! 1, 57)"
  "make_sale cnt_np 738886 57 = (cnt_first_day ! 2, 64)"
  "make_sale cnt_np 738886 64 = (cnt_first_day ! 3, 71)"
  "make_sale cnt_np 738886 71 = (cnt_first_day ! 4, 78)"
  "make_sale cnt_np 738886 78 = (cnt_first_day ! 5, 85)"
  "make_sale cnt_np 738886 85 = (cnt_first_day ! 6, 92)"
  by (simp_all add: make_sale_def cnt_np_def products_def regions_def Let_def
        category_and_price_def py_round2_def cnt_first_day_def)

lemma cnt_first_day_rows:
  "fst (transactions_loop cnt_np (datetime 2024 1 1) 7 ([], 43)) = cnt_first_day"
proof -
  have "transactions_loop cnt_np 738886 7 ([], 43) =
        ([cnt_first_day ! 0, cnt_first_day ! 1, cnt_first_day ! 2, cnt_first_day ! 3,
          cnt_first_day ! 4, cnt_first_day ! 5, cnt_first_day ! 6], 92)"
  proof -
    have seven: "(7::nat) = Suc (Suc (Suc (Suc (Suc (Suc (Suc 0))))))" by simp
    show ?thesis
      by (subst seven) (simp add: cnt_rows)
  qed
  moreover have "[cnt_first_day ! 0, cnt_first_day ! 1, cnt_first_day ! 2, cnt_first_day ! 3,
          cnt_first_day ! 4, cnt_first_day ! 5, cnt_first_day ! 6] = cnt_first_day"
    by (simp add: cnt_first_day_def)
  ultimately show ?thesis
    unfolding datetime_start by simp
qed

lemma cnt_first_day_in_log:
  "set cnt_first_day \<subseteq> set (fst (generate_sales_data cnt_np 0))"
proof -
  have "randint cnt_np 5 15 (seed cnt_np 42) = (7, 43)"
    by (simp add: cnt_np_def)
  from first_day_in_log [OF this, of 0] show ?thesis
    by (simp add: cnt_first_day_rows)
qed

subsection \<open>Revenue and unit price\<close>




subsection \<open>Determinism\<close>

text \<open>
  C6: the function seeds the generator with 42 before its first draw, so the data frame
  (and the state left behind) does not depend on the state it is called in: two runs,
  one after the other or from any two states, give the same rows in the same order.
\<close>

theorem generator_deterministic:
  "generate_sales_data np g1 = generate_sales_data np g2 \<and>
   fst (generate_sales_data np (snd (generate_sales_data np g0))) =
     fst (generate_sales_data np g0) \<and>
   length (fst (generate_sales_data np g1)) = length (fst (generate_sales_data np g2))"
  by (simp add: generate_sales_data_def)

theorem generator_deterministic_witness:
  "generate_sales_data stub_np 7 = generate_sales_data stub_np 0 \<and>
   stub_first_sale \<in> set (fst (generate_sales_data stub_np 7))"
proof -
  from generator_deterministic [of stub_np 7 0 0]
  have "generate_sales_data stub_np 7 = generate_sales_data stub_np 0"
    by blast
  with stub_first_sale_in_log show ?thesis by simp
qed

subsection \<open>What is drawn\<close>

lemma day_count:
  assumes "datetime 2024 1 1 \<le> d \<and> d \<le> datetime 2024 11 24"
  shows "\<exists>g. length (filter (\<lambda>r. Date r = d) (fst (generate_sales_data np g0))) =
              nat (fst (randint np 5 15 g))"
proof -
  let ?ds = "pd_date_range (datetime 2024 1 1) (datetime 2024 11 24)"
  have dist: "distinct ?ds" unfolding pd_date_range_def by (rule distinct_upto)
  have mem: "d \<in> set ?ds" using assms unfolding set_pd_date_range by simp
  have g: "generate_sales_data np g0 = dates_loop np ?ds ([], seed np 42)"
    unfolding generate_sales_data_def Let_def ..
  from dates_loop_count [OF dist mem, of np "[]" "seed np 42"]
  show ?thesis
    unfolding g by simp
qed

lemma day_count_range:
  assumes "np_contract np" "datetime 2024 1 1 \<le> d \<and> d \<le> datetime 2024 11 24"
  shows "(\<exists>g. length (filter (\<lambda>r. Date r = d) (fst (generate_sales_data np g0))) =
              nat (fst (randint np 5 15 g))) \<and>
         5 \<le> length (filter (\<lambda>r. Date r = d) (fst (generate_sales_data np g0))) \<and>
         length (filter (\<lambda>r. Date r = d) (fst (generate_sales_data np g0))) < 15"
proof -
  from day_count [OF assms(2), of np g0] obtain g where
    g: "length (filter (\<lambda>r. Date r = d) (fst (generate_sales_data np g0))) =
        nat (fst (randint np 5 15 g))"
    by blast
  have "5 \<le> fst (randint np 5 15 g) \<and> fst (randint np 5 15 g) < 15"
    using randint_in_range [OF assms(1), of 5 15 g "fst (randint np 5 15 g)"
        "snd (randint np 5 15 g)"] by simp
  then have "5 \<le> nat (fst (randint np 5 15 g)) \<and> nat (fst (randint np 5 15 g)) < 15"
    by linarith
  with g show ?thesis by metis
qed

lemma row_draws:
  assumes "np_contract np" "r \<in> set (fst (generate_sales_data np g0))"
  shows "datetime 2024 1 1 \<le> Date r \<and> Date r \<le> datetime 2024 11 24 \<and>
         (\<exists>g c1 u q c2.
            c1 = choice np products g \<and>
            u = uniform np (fst (price_range_of (category_of (fst c1))))
                  (snd (price_range_of (category_of (fst c1)))) (snd c1) \<and>
            q = randint np 1 10 (snd u) \<and>
            c2 = choice np regions (snd q) \<and>
            Product r = fst c1 \<and> Category r = category_of (fst c1) \<and>
            Unit_Price r = py_round2 (fst u) \<and> Quantity r = fst q \<and>
            Region r = fst c2) \<and>
         Product r \<in> set products \<and> Category r = category_of (Product r) \<and>
         1 \<le> Quantity r \<and> Quantity r < 10 \<and> Region r \<in> set regions \<and>
         fst (price_range_of (Category r)) \<le> Unit_Price r \<and>
         Unit_Price r \<le> snd (price_range_of (Category r))"
proof -
  note m = rows_are_made [OF assms(2)]
  then obtain g where r: "r = fst (make_sale np (Date r) g)" by blast
  from make_sale_calls [OF r]
  have c: "\<exists>g c1 u q c2.
            c1 = choice np products g \<and>
            u = uniform np (fst (price_range_of (category_of (fst c1))))
                  (snd (price_range_of (category_of (fst c1)))) (snd c1) \<and>
            q = randint np 1 10 (snd u) \<and>
            c2 = choice np regions (snd q) \<and>
            Product r = fst c1 \<and> Category r = category_of (fst c1) \<and>
            Unit_Price r = py_round2 (fst u) \<and> Quantity r = fst q \<and>
            Region r = fst c2"
    by (rule exI)
  from m have a: "datetime 2024 1 1 \<le> Date r \<and> Date r \<le> datetime 2024 11 24" by blast
  from a c make_sale_draws [OF assms(1) r] show ?thesis
    by (intro conjI) (erule conjunct1 conjunct2 | assumption | elim conjE)+
qed

text \<open>
  C8: with a library that keeps its contract, the number of rows of every day from
  2024-01-01 to 2024-11-24 is the value of a \<^verbatim>\<open>randint(5, 15)\<close> draw, at least 5 and
  below 15. Every row is dated in that range and its fields are the values of the four
  draws of one pass, made in sequence on the generator state: the product is a
  \<^verbatim>\<open>choice\<close> from the catalog, the category is the lookup of that product, the unit
  price is the two-decimal rounding of a \<^verbatim>\<open>uniform\<close> draw over the range of that
  category, the quantity is a \<^verbatim>\<open>randint(1, 10)\<close> draw, the region a \<^verbatim>\<open>choice\<close>
  from the region catalog. So the quantity is in \<open>[1, 10)\<close>, product and region are in
  their catalogs and the unit price is within the closed range of the category.
\<close>

theorem generator_draws:
  assumes "np_contract np"
  shows "(\<forall>d. datetime 2024 1 1 \<le> d \<and> d \<le> datetime 2024 11 24 \<longrightarrow>
            (\<exists>g. length (filter (\<lambda>r. Date r = d) (fst (generate_sales_data np g0))) =
                  nat (fst (randint np 5 15 g))) \<and>
            5 \<le> length (filter (\<lambda>r. Date r = d) (fst (generate_sales_data np g0))) \<and>
            length (filter (\<lambda>r. Date r = d) (fst (generate_sales_data np g0))) < 15) \<and>
         (\<forall>r\<in>set (fst (generate_sales_data np g0)).
            datetime 2024 1 1 \<le> Date r \<and> Date r \<le> datetime 2024 11 24 \<and>
            (\<exists>g c1 u q c2.
               c1 = choice np products g \<and>
               u = uniform np (fst (price_range_of (category_of (fst c1))))
                     (snd (price_range_of (category_of (fst c1)))) (snd c1) \<and>
               q = randint np 1 10 (snd u) \<and>
               c2 = choice np regions (snd q) \<and>
               Product r = fst c1 \<and> Category r = category_of (fst c1) \<and>
               Unit_Price r = py_round2 (fst u) \<and> Quantity r = fst q \<and>
               Region r = fst c2) \<and>
            Product r \<in> set products \<and> Category r = category_of (Product r) \<and>
            1 \<le> Quantity r \<and> Quantity r < 10 \<and> Region r \<in> set regions \<and>
            fst (price_range_of (Category r)) \<le> Unit_Price r \<and>
            Unit_Price r \<le> snd (price_range_of (Category r)))"
proof (rule conjI)
  show "\<forall>d. datetime 2024 1 1 \<le> d \<and> d \<le> datetime 2024 11 24 \<longrightarrow>
            (\<exists>g. length (filter (\<lambda>r. Date r = d) (fst (generate_sales_data np g0))) =
                  nat (fst (randint np 5 15 g))) \<and>
            5 \<le> length (filter (\<lambda>r. Date r = d) (fst (generate_sales_data np g0))) \<and>
            length (filter (\<lambda>r. Date r = d) (fst (generate_sales_data np g0))) < 15"
    by (intro allI impI) (rule day_count_range [OF assms])
next
  show "\<forall>r\<in>set (fst (generate_sales_data np g0)).
            datetime 2024 1 1 \<le> Date r \<and> Date r \<le> datetime 2024 11 24 \<and>
            (\<exists>g c1 u q c2.
               c1 = choice np products g \<and>
               u = uniform np (fst (price_range_of (category_of (fst c1))))
                     (snd (price_range_of (category_of (fst c1)))) (snd c1) \<and>
               q = randint np 1 10 (snd u) \<and>
               c2 = choice np regions (snd q) \<and>
               Product r = fst c1 \<and> Category r = category_of (fst c1) \<and>
               Unit_Price r = py_round2 (fst u) \<and> Quantity r = fst q \<and>
               Region r = fst c2) \<and>
            Product r \<in> set products \<and> Category r = category_of (Product r) \<and>
            1 \<le> Quantity r \<and> Quantity r < 10 \<and> Region r \<in> set regions \<and>
            fst (price_range_of (Category r)) \<le> Unit_Price r \<and>
            Unit_Price r \<le> snd (price_range_of (Category r))"
    by (rule ballI) (rule row_draws [OF assms])
qed

theorem generator_draws_witness:
  "np_contract cnt_np \<and>
   datetime 2024 1 1 \<le> datetime 2024 1 1 \<and> datetime 2024 1 1 \<le> datetime 2024 11 24 \<and>
   5 \<le> length (filter (\<lambda>r. Date r = datetime 2024 1 1) (fst (generate_sales_data cnt_np 0))) \<and>
   length (filter (\<lambda>r. Date r = datetime 2024 1 1) (fst (generate_sales_data cnt_np 0))) < 15 \<and>
   set cnt_first_day \<subseteq> set (fst (generate_sales_data cnt_np 0)) \<and>
   map Product cnt_first_day =
     [''Headphones'', ''Tablet'', ''Smartphone'', ''Laptop'', ''Webcam'', ''Mouse'',
      ''Keyboard''] \<and>
   map Category cnt_first_day = map category_of (map Product cnt_first_day) \<and>
   map Quantity cnt_first_day = [4, 2, 9, 7, 5, 3, 1] \<and>
   Product (cnt_first_day ! 3) \<in> set products \<and>
   Category (cnt_first_day ! 3) = category_of (Product (cnt_first_day ! 3)) \<and>
   1 \<le> Quantity (cnt_first_day ! 3) \<and> Quantity (cnt_first_day ! 3) < 10 \<and>
   fst (price_range_of (Category (cnt_first_day ! 3))) \<le> Unit_Price (cnt_first_day ! 3) \<and>
   Unit_Price (cnt_first_day ! 3) \<le> snd (price_range_of (Category (cnt_first_day ! 3))) \<and>
   Unit_Price (cnt_first_day ! 3) = 597.5 \<and>
   price_range_of (Category (cnt_first_day ! 3)) = (500, 2000)"
proof -
  have d: "datetime 2024 1 1 \<le> datetime 2024 1 1 \<and> datetime 2024 1 1 \<le> datetime 2024 11 24"
    by (simp add: datetime_start datetime_stop)
  have m: "cnt_first_day ! 3 \<in> set (fst (generate_sales_data cnt_np 0))"
    using cnt_first_day_in_log by (simp add: cnt_first_day_def)
  note t = generator_draws [OF cnt_np_contract, of 0]
  note c = t [THEN conjunct1, THEN spec, THEN mp, OF d]
  note p = t [THEN conjunct2, THEN bspec, OF m]
  have e: "map Product cnt_first_day =
     [''Headphones'', ''Tablet'', ''Smartphone'', ''Laptop'', ''Webcam'', ''Mouse'',
      ''Keyboard'']"
    "map Quantity cnt_first_day = [4, 2, 9, 7, 5, 3, 1]"
    "Unit_Price (cnt_first_day ! 3) = 597.5"
    "price_range_of (Category (cnt_first_day ! 3)) = (500, 2000)"
    by (simp_all add: cnt_first_day_def price_range_of_def)
  have f: "map Category cnt_first_day = map category_of (map Product cnt_first_day)"
    by (simp add: cnt_first_day_def category_of_def)
  from c have c': "5 \<le> length (filter (\<lambda>r. Date r = datetime 2024 1 1) (fst (generate_sales_data cnt_np 0)))"
    "length (filter (\<lambda>r. Date r = datetime 2024 1 1) (fst (generate_sales_data cnt_np 0))) < 15"
    by blast+
  from p have p': "Product (cnt_first_day ! 3) \<in> set products"
    "Category (cnt_first_day ! 3) = category_of (Product (cnt_first_day ! 3))"
    "1 \<le> Quantity (cnt_first_day ! 3)" "Quantity (cnt_first_day ! 3) < 10"
    "fst (price_range_of (Category (cnt_first_day ! 3))) \<le> Unit_Price (cnt_first_day ! 3)"
    "Unit_Price (cnt_first_day ! 3) \<le> snd (price_range_of (Category (cnt_first_day ! 3)))"
    by blast+
  from cnt_np_contract d c' cnt_first_day_in_log e f p' show ?thesis
    by (intro conjI) (assumption | erule conjunct1 | erule conjunct2)+
qed

end
